theory Spec2Isabelle
  imports Main
begin

section \<open>Ref merging: packages/compose/src/hooks/use-merge-refs/index.js\<close>

subsection \<open>Values, refs and the assignments a ref receives\<close>

text \<open>
  The value handed to a ref is a DOM node, \<open>null\<close> (the framework detaches a ref with
  \<open>null\<close>) or \<open>undefined\<close> (the initial \<open>current\<close> of \<open>useRef()\<close>). Only a node is truthy.
\<close>

datatype 'n val = Undefined | Null | Node 'n

fun truthy :: "'n val \<Rightarrow> bool" where
  "truthy (Node n) = True"
| "truthy Null = False"
| "truthy Undefined = False"

text \<open>
  An entry of the ref list. Functions and objects carry an identity (JavaScript compares
  them with \<open>!==\<close> by identity).
  \<^item> \<open>RefCallback f\<close> is a function.
  \<^item> \<open>RefObject r\<close> is an object with an own \<open>current\<close> property whose \<open>hasOwnProperty\<close> is
    the method inherited from \<open>Object.prototype\<close>.
  \<^item> \<open>PlainObject p\<close> is an object without an own \<open>current\<close> property whose
    \<open>hasOwnProperty\<close> is the inherited method (or any other truthy value that is not a
    function, such as a number).
  \<^item> \<open>CustomObject c answer\<close> is an object whose \<open>hasOwnProperty\<close> is a method of its
    own that returns \<open>answer\<close>, whether or not the object has an own \<open>current\<close>.
  \<^item> \<open>BareObject b\<close> is an object that has no \<open>hasOwnProperty\<close> method at all, such as
    \<open>Object.create( null )\<close>, with or without an own \<open>current\<close>: calling
    \<open>ref.hasOwnProperty\<close> raises a TypeError.
  \<^item> \<open>RefNull\<close> and \<open>RefUndefined\<close> are \<open>null\<close> and \<open>undefined\<close> (or another falsy value).
\<close>

datatype ref = RefCallback nat | RefObject nat | PlainObject nat | CustomObject nat bool
  | BareObject nat | RefNull | RefUndefined

datatype error = TypeError

text \<open>
  What an assignment does to the world outside the hook: a callback ref is called with the
  value, an object has the value stored in its \<open>current\<close>. The world is the sequence of
  these events in program order. A callback ref is taken to return normally.
\<close>

datatype 'n effect = Called nat "'n val" | Stored nat "'n val"

text \<open>
  \<^verbatim>\<open>function assignRef( ref, value ) {
    if ( typeof ref === 'function' ) { ref( value ); }
    else if ( ref && ref.hasOwnProperty( 'current' ) ) { ref.current = value; } }\<close>
  The result is the world after the call, or the exception the call raises.
\<close>

fun assignRef :: "ref \<Rightarrow> 'n val \<Rightarrow> 'n effect list \<Rightarrow> error + 'n effect list" where
  "assignRef (RefCallback f) v w = Inr (w @ [Called f v])"
| "assignRef RefNull v w = Inr w"
| "assignRef RefUndefined v w = Inr w"
| "assignRef (BareObject b) v w = Inl TypeError"
| "assignRef (CustomObject c answer) v w = Inr (if answer then w @ [Stored c v] else w)"
| "assignRef (RefObject r) v w = Inr (w @ [Stored r v])"
| "assignRef (PlainObject p) v w = Inr w"

subsection \<open>The state of one component instance\<close>

text \<open>
  The four \<open>useRef\<close> cells of \<open>useMergeRefs\<close>, what the framework remembers between
  renders (the dependencies of the first layout effect, the memoised callback of
  \<open>useCallback\<close>, a counter that gives every function object created by a render its own
  identity), the events seen so far, and the exceptions that the hook's functions raised
  and the framework caught while committing.
\<close>

record 'n hooks =
  element :: "'n val"
  didElementChange :: bool
  previousRefs :: "ref list"
  currentRefs :: "ref list"
  layoutDeps :: "ref list option"
  callbackMemo :: "(nat \<times> ref list) option"
  allocated :: nat
  effects :: "'n effect list"
  caught :: "error list"

definition mountState :: "'n hooks" where
  "mountState = \<lparr> element = Undefined, didElementChange = False, previousRefs = [],
     currentRefs = [], layoutDeps = None, callbackMemo = None, allocated = 0,
     effects = [], caught = [] \<rparr>"

subsection \<open>The merged callback (lines 80-95)\<close>

text \<open>
  \<^verbatim>\<open>for ( const ref of refsToAssign ) { assignRef( ref, value ); }\<close>
  An exception ends the loop: the result is the exception, if any, and the world the loop
  leaves.
\<close>

fun assignAll :: "ref list \<Rightarrow> 'n val \<Rightarrow> 'n effect list \<Rightarrow> error option \<times> 'n effect list" where
  "assignAll [] v w = (None, w)"
| "assignAll (r # rs) v w =
     (case assignRef r v w of Inl err \<Rightarrow> (Some err, w) | Inr w1 \<Rightarrow> assignAll rs v w1)"

text \<open>The callback: the exception it raises, if any, and the state it leaves.\<close>

definition mergedRef :: "'n val \<Rightarrow> 'n hooks \<Rightarrow> error option \<times> 'n hooks" where
  "mergedRef v s =
     (let s1 = s\<lparr>element := v\<rparr>;
          s2 = s1\<lparr>didElementChange := True\<rparr>;
          refsToAssign = (if truthy v then currentRefs s2 else previousRefs s2)
      in case assignAll refsToAssign v (effects s2) of
           (thrown, w) \<Rightarrow> (thrown, s2\<lparr>effects := w\<rparr>))"

subsection \<open>The two layout effects (lines 58-76)\<close>

text \<open>\<open>previousRefs.current[ index ]\<close>: reading past the end of an array gives \<open>undefined\<close>.\<close>

definition refAt :: "ref list \<Rightarrow> nat \<Rightarrow> ref" where
  "refAt xs index = (if index < length xs then xs ! index else RefUndefined)"

text \<open>The body of the \<open>forEach\<close> of lines 60-66, for one (index, ref).\<close>

definition diffStep ::
  "ref list \<Rightarrow> 'n val \<Rightarrow> 'n effect list \<Rightarrow> nat \<times> ref \<Rightarrow> error option \<times> 'n effect list" where
  "diffStep prev e w ir =
     (let previousRef = refAt prev (fst ir); r = snd ir
      in if r \<noteq> previousRef
         then (case assignRef previousRef Null w of
                 Inl err \<Rightarrow> (Some err, w)
               | Inr w1 \<Rightarrow>
                   (case assignRef r e w1 of
                      Inl err \<Rightarrow> (Some err, w1)
                    | Inr w2 \<Rightarrow> (None, w2)))
         else (None, w))"

fun forEach ::
  "('n effect list \<Rightarrow> nat \<times> ref \<Rightarrow> error option \<times> 'n effect list) \<Rightarrow> (nat \<times> ref) list
   \<Rightarrow> 'n effect list \<Rightarrow> error option \<times> 'n effect list" where
  "forEach body [] w = (None, w)"
| "forEach body (ir # irs) w =
     (case body w ir of
        (Some err, w1) \<Rightarrow> (Some err, w1)
      | (None, w1) \<Rightarrow> forEach body irs w1)"

text \<open>
  The first effect. Line 69 is not reached when the loop raises an exception.
\<close>

definition refsEffect :: "ref list \<Rightarrow> 'n hooks \<Rightarrow> error option \<times> 'n hooks" where
  "refsEffect refs s =
     (if didElementChange s = False
      then (case forEach (diffStep (previousRefs s) (element s)) (enumerate 0 refs) (effects s) of
              (Some err, w) \<Rightarrow> (Some err, s\<lparr>effects := w\<rparr>)
            | (None, w) \<Rightarrow> (None, s\<lparr>effects := w, previousRefs := refs\<rparr>))
      else (None, s\<lparr>previousRefs := refs\<rparr>))"

definition resetEffect :: "'n hooks \<Rightarrow> 'n hooks" where
  "resetEffect s = s\<lparr>didElementChange := False\<rparr>"

subsection \<open>The host framework\<close>

text \<open>
  Modelled from the spec: the render-then-effect contract of the host framework (React,
  re-exported by @wordpress/element, which is not among the sources). Section 5 of the
  specification: effects run after the DOM commit, in declaration order. A dependency
  list is compared with the stored one element by element, by identity, over their
  common length; an effect with dependencies runs on mount and whenever that comparison
  fails, and the list is stored when the effect runs; \<open>useCallback\<close> returns the
  memoised function while its dependencies compare equal. A ref callback whose identity
  is stable is called only when the element it is attached to changes: with \<open>null\<close> for
  the element that goes away, then with the new element, both before the layout effects
  of the component. An exception raised by the ref callback or by a layout effect is
  caught by the commit; after an exception in a layout effect the later layout effects of
  the component do not run.
\<close>

definition areHookInputsEqual :: "ref list \<Rightarrow> ref list \<Rightarrow> bool" where
  "areHookInputsEqual nextDeps prevDeps = list_all (\<lambda>(a, b). a = b) (zip nextDeps prevDeps)"

definition useCallback :: "nat \<Rightarrow> ref list \<Rightarrow> 'n hooks \<Rightarrow> nat \<times> 'n hooks" where
  "useCallback fresh deps s =
     (case callbackMemo s of
        None \<Rightarrow> (fresh, s\<lparr>callbackMemo := Some (fresh, deps)\<rparr>)
      | Some (memo, prevDeps) \<Rightarrow>
          if areHookInputsEqual deps prevDeps then (memo, s)
          else (fresh, s\<lparr>callbackMemo := Some (fresh, deps)\<rparr>))"

text \<open>
  The body of \<open>useMergeRefs\<close> during a render: line 53 stores the list, the arrow function of
  line 80 is a new function object, and \<open>useCallback( ..., [] )\<close> decides which function is
  returned. The result is the identity of the returned callback.
\<close>

definition useMergeRefs :: "ref list \<Rightarrow> 'n hooks \<Rightarrow> nat \<times> 'n hooks" where
  "useMergeRefs refs s =
     (let s1 = s\<lparr>currentRefs := refs\<rparr>;
          fresh = allocated s1;
          s2 = s1\<lparr>allocated := Suc fresh\<rparr>
      in useCallback fresh [] s2)"

text \<open>The commit keeps the exception of a call, if there is one.\<close>

definition captured :: "error option \<times> 'n hooks \<Rightarrow> 'n hooks" where
  "captured result =
     (case result of (None, s) \<Rightarrow> s | (Some err, s) \<Rightarrow> s\<lparr>caught := caught s @ [err]\<rparr>)"

text \<open>What happens to the element the merged callback is attached to in one render cycle.\<close>

datatype 'n change = Same | Mounted 'n | Unmounted | Swapped 'n

fun attach :: "'n change \<Rightarrow> 'n hooks \<Rightarrow> 'n hooks" where
  "attach Same s = s"
| "attach (Mounted n) s = captured (mergedRef (Node n) s)"
| "attach Unmounted s = captured (mergedRef Null s)"
| "attach (Swapped n) s = captured (mergedRef (Node n) (captured (mergedRef Null s)))"

definition layoutEffects :: "ref list \<Rightarrow> 'n hooks \<Rightarrow> 'n hooks" where
  "layoutEffects refs s =
     (let runs = (case layoutDeps s of None \<Rightarrow> True
                  | Some prevDeps \<Rightarrow> \<not> areHookInputsEqual refs prevDeps)
      in if runs
         then (case refsEffect refs (s\<lparr>layoutDeps := Some refs\<rparr>) of
                 (Some err, s1) \<Rightarrow> s1\<lparr>caught := caught s1 @ [err]\<rparr>
               | (None, s1) \<Rightarrow> resetEffect s1)
         else resetEffect s)"

definition cycle :: "ref list \<Rightarrow> 'n change \<Rightarrow> 'n hooks \<Rightarrow> nat \<times> 'n hooks" where
  "cycle refs chg s =
     (case useMergeRefs refs s of (callback, s1) \<Rightarrow> (callback, layoutEffects refs (attach chg s1)))"

fun run :: "(ref list \<times> 'n change) list \<Rightarrow> 'n hooks \<Rightarrow> nat list \<times> 'n hooks" where
  "run [] s = ([], s)"
| "run ((refs, chg) # cs) s =
     (case cycle refs chg s of (callback, s1) \<Rightarrow>
        (case run cs s1 of (callbacks, s2) \<Rightarrow> (callback # callbacks, s2)))"

subsection \<open>What the properties are stated with\<close>

text \<open>
  The events one assignment owes, written out for each kind of ref: a function is called,
  an object with an own \<open>current\<close> (or one whose own \<open>hasOwnProperty\<close> says so) has the
  value stored, everything else receives nothing.
\<close>

fun assigned :: "ref \<Rightarrow> 'n val \<Rightarrow> 'n effect list" where
  "assigned (RefCallback f) v = [Called f v]"
| "assigned (RefObject r) v = [Stored r v]"
| "assigned (CustomObject c answer) v = (if answer then [Stored c v] else [])"
| "assigned (PlainObject p) v = []"
| "assigned (BareObject b) v = []"
| "assigned RefNull v = []"
| "assigned RefUndefined v = []"

text \<open>The entries on which \<open>assignRef\<close> returns, and the entries it ignores.\<close>

definition safeRef :: "ref \<Rightarrow> bool" where
  "safeRef r = (case r of BareObject b \<Rightarrow> False | _ \<Rightarrow> True)"

definition ignored :: "ref \<Rightarrow> bool" where
  "ignored r = (case r of RefNull \<Rightarrow> True | RefUndefined \<Rightarrow> True | PlainObject p \<Rightarrow> True
                | _ \<Rightarrow> False)"


text \<open>
  The state a render cycle leaves when the list effect has stored the list: the stored
  dependencies are the stored refs, and the flag is clear.
\<close>

definition committed :: "'n hooks \<Rightarrow> bool" where
  "committed s = (layoutDeps s = Some (previousRefs s) \<and> didElementChange s = False)"

text \<open>
  The function \<open>useCallback\<close> holds for the instance: the memoised one, or, before the
  first render, the one that render is about to create.
\<close>

definition memoised :: "'n hooks \<Rightarrow> nat" where
  "memoised s = (case callbackMemo s of None \<Rightarrow> allocated s | Some (memo, deps) \<Rightarrow> memo)"

text \<open>Mounted instances used as concrete inputs; the element is node 7.\<close>

definition mountedOne :: "nat hooks" where
  "mountedOne = snd (cycle [RefCallback 0] (Mounted 7) mountState)"

definition mountedTwo :: "nat hooks" where
  "mountedTwo = snd (cycle [RefCallback 0, RefCallback 1] (Mounted 7) mountState)"


section \<open>Font family support: packages/block-editor/src/hooks/font-family.js\<close>

subsection \<open>JavaScript values\<close>

text \<open>
  A JavaScript string whose content matters (a class name, a slug, a URL) is the list of
  its UTF-16 code units, as natural numbers; \<open>jstr\<close> gives the code units of an ASCII
  literal. Keys and names that are only compared keep the type \<open>string\<close>.
\<close>

type_synonym jsString = "nat list"

definition jstr :: "string \<Rightarrow> jsString" where
  "jstr s = map of_char s"

text \<open>
  The values that block settings and styles hold. \<open>isTruthy\<close> is JavaScript's conversion
  to a boolean; \<open>optProp v k\<close> is the optional chaining \<open>v?.k\<close> (a property that is not
  there, or a base that is not an object, gives \<open>undefined\<close>).
\<close>

datatype json = JUndefined | JNull | JBool bool | JNum int | JStr string
  | JObj "(string \<times> json) list"

fun isTruthy :: "json \<Rightarrow> bool" where
  "isTruthy JUndefined = False"
| "isTruthy JNull = False"
| "isTruthy (JBool b) = b"
| "isTruthy (JNum n) = (n \<noteq> 0)"
| "isTruthy (JStr s) = (s \<noteq> [])"
| "isTruthy (JObj kvs) = True"

fun optProp :: "json \<Rightarrow> string \<Rightarrow> json" where
  "optProp (JObj kvs) k = (case map_of kvs k of None \<Rightarrow> JUndefined | Some v \<Rightarrow> v)"
| "optProp v k = JUndefined"

subsection \<open>Block types and their supports\<close>

text \<open>
  A block type descriptor: its attribute schema (\<open>None\<close> when \<open>settings.attributes\<close> is
  \<open>undefined\<close>) and its support flags, by key.
\<close>

record blockType =
  attributes :: "(string \<rightharpoonup> json) option"
  supports :: "string \<rightharpoonup> json"

definition FONT_FAMILY_SUPPORT_KEY :: string where
  "FONT_FAMILY_SUPPORT_KEY = ''__experimentalFontFamily''"

definition SKIP_TYPOGRAPHY_SERIALIZATION :: string where
  "SKIP_TYPOGRAPHY_SERIALIZATION = ''__experimentalSkipTypographySerialization''"

text \<open>
  Modelled from the spec: \<open>hasBlockSupport\<close> of @wordpress/blocks, which is not among
  the sources. The specification's glossary: a support flag is "a declarative marker on
  a block type enabling an optional feature". The block type is given directly, or looked
  up by name in the registry (\<open>None\<close> when no block of that name is registered); the
  feature is supported when the block type declares the key with a truthy value.
\<close>

definition hasBlockSupport :: "blockType option \<Rightarrow> string \<Rightarrow> bool" where
  "hasBlockSupport nameOrType feature =
     (case nameOrType of
        None \<Rightarrow> False
      | Some blockType \<Rightarrow>
          (case supports blockType feature of None \<Rightarrow> False | Some v \<Rightarrow> isTruthy v))"

subsection \<open>addAttributes (lines 29-44)\<close>

text \<open>
  \<open>settings.attributes.fontFamily\<close> raises a TypeError when \<open>settings.attributes\<close> is
  \<open>undefined\<close>; \<open>Object.assign\<close> sets the one key.
\<close>

definition addAttributes :: "blockType \<Rightarrow> error + blockType" where
  "addAttributes settings =
     (if \<not> hasBlockSupport (Some settings) FONT_FAMILY_SUPPORT_KEY then Inr settings
      else case attributes settings of
             None \<Rightarrow> Inl TypeError
           | Some schema \<Rightarrow>
               if \<not> (case schema ''fontFamily'' of None \<Rightarrow> False | Some v \<Rightarrow> isTruthy v)
               then Inr (settings\<lparr>attributes :=
                      Some (schema(''fontFamily'' \<mapsto> JObj [(''type'', JStr ''string'')]))\<rparr>)
               else Inr settings)"

subsection \<open>The class list\<close>

text \<open>
  The string helpers of the class list: \<open>splitSpaces\<close> is \<open>value.split( /\s+/ )\<close>
  followed by lodash's \<open>compact\<close> (the pieces between runs of white space, without the
  empty ones), \<open>uniq\<close> is lodash's \<open>uniq\<close> (each element once, at its first
  occurrence) and \<open>joinWith\<close> is \<open>join\<close>. \<open>isSpace\<close> is the class \<open>\s\<close> of a regular
  expression: tab, line feed, vertical tab, form feed, carriage return, space, U+00A0,
  U+1680, U+2000 to U+200A, U+2028, U+2029, U+202F, U+205F, U+3000 and U+FEFF.
\<close>

definition isSpace :: "nat \<Rightarrow> bool" where
  "isSpace u = (u \<in> set [9, 10, 11, 12, 13, 32, 160, 5760, 8232, 8233, 8239, 8287, 12288, 65279]
                \<or> (8192 \<le> u \<and> u \<le> 8202))"

function splitSpaces :: "jsString \<Rightarrow> jsString list" where
  "splitSpaces s =
     (case dropWhile isSpace s of
        [] \<Rightarrow> []
      | c # cs \<Rightarrow> takeWhile (\<lambda>x. \<not> isSpace x) (c # cs)
                 # splitSpaces (dropWhile (\<lambda>x. \<not> isSpace x) (c # cs)))"
  by pat_completeness auto
termination
proof (relation "measure length")
  show "wf (measure length)" by simp
next
  fix s :: jsString and c cs
  assume d: "dropWhile isSpace s = c # cs"
  have "\<not> isSpace c" using d by (metis hd_dropWhile list.sel(1) list.distinct(1))
  then have "length (dropWhile (\<lambda>x. \<not> isSpace x) (c # cs)) \<le> length cs"
    by (simp add: length_dropWhile_le)
  moreover have "length (c # cs) \<le> length s"
    using d length_dropWhile_le [of isSpace s] by simp
  ultimately show "(dropWhile (\<lambda>x. \<not> isSpace x) (c # cs), s) \<in> measure length"
    by simp
qed

fun uniqFrom :: "'a list \<Rightarrow> 'a list \<Rightarrow> 'a list" where
  "uniqFrom seen [] = []"
| "uniqFrom seen (x # xs) =
     (if x \<in> set seen then uniqFrom seen xs else x # uniqFrom (x # seen) xs)"

definition uniq :: "'a list \<Rightarrow> 'a list" where
  "uniq xs = uniqFrom [] xs"

fun joinWith :: "jsString \<Rightarrow> jsString list \<Rightarrow> jsString" where
  "joinWith sep [] = []"
| "joinWith sep [w] = w"
| "joinWith sep (w # v # ws) = w @ sep @ joinWith sep (v # ws)"

text \<open>
  Modelled from the spec: \<open>TokenList\<close> of @wordpress/token-list, which is not among the
  sources. It is the class list that the save-time callback "appends a
  \<open>has-<slug>-font-family\<close> class" to, and the source uses it "to dedupe classes": its
  value is a string of classes separated by single spaces, each class once, in the order
  of first occurrence. Setting the value splits the string at white space, drops the
  empty pieces and the repeated classes, and joins the rest; the constructor sets the
  initial value (the empty string when it is \<open>undefined\<close>); \<open>add\<close> sets the value to the
  old value, a space and the new item.
\<close>

record tokenList =
  currentValue :: jsString
  valueAsArray :: "jsString list"

definition setValue :: "jsString \<Rightarrow> tokenList" where
  "setValue v =
     (let arr = uniq (splitSpaces v)
      in \<lparr> currentValue = joinWith (jstr '' '') arr, valueAsArray = arr \<rparr>)"

definition TokenList :: "jsString option \<Rightarrow> tokenList" where
  "TokenList initialValue = setValue (case initialValue of None \<Rightarrow> [] | Some v \<Rightarrow> v)"

definition add :: "tokenList \<Rightarrow> jsString \<Rightarrow> tokenList" where
  "add t item = setValue (currentValue t @ jstr '' '' @ item)"

subsection \<open>addSaveProps (lines 54-79)\<close>

text \<open>
  The props of the save element: \<open>className\<close> (a string, or \<open>undefined\<close>) and every other
  prop. The block's attributes: \<open>fontFamily\<close> (a string, or \<open>undefined\<close>) and \<open>style\<close>.
  An empty string is falsy, as \<open>undefined\<close> is.
\<close>

record saveProps =
  className :: "jsString option"
  otherProps :: "(string \<times> json) list"

record blockAttributes =
  fontFamily :: "jsString option"
  style :: json

definition addSaveProps :: "saveProps \<Rightarrow> blockType \<Rightarrow> blockAttributes option \<Rightarrow> saveProps" where
  "addSaveProps props blockType attrs =
     (if \<not> hasBlockSupport (Some blockType) FONT_FAMILY_SUPPORT_KEY then props
      else if hasBlockSupport (Some blockType) SKIP_TYPOGRAPHY_SERIALIZATION then props
      else case (case attrs of None \<Rightarrow> None | Some a \<Rightarrow> fontFamily a) of
             None \<Rightarrow> props
           | Some slugAttr \<Rightarrow>
               if slugAttr = [] then props
               else let classes = add (TokenList (className props))
                                    (jstr ''has-'' @ slugAttr @ jstr ''-font-family'');
                        newClassName = currentValue classes
                    in props\<lparr>className :=
                         (if newClassName \<noteq> [] then Some newClassName else None)\<rparr>)"

subsection \<open>withFontFamilyInlineStyles (lines 139-183)\<close>

text \<open>
  An entry of the \<open>typography.fontFamilies\<close> setting: its slug and its \<open>fontFamily\<close>
  value. \<open>find_js\<close> is lodash's \<open>find\<close>: the first element that satisfies the predicate,
  \<open>undefined\<close> when there is none or when the collection itself is \<open>undefined\<close>.
\<close>

datatype preset = Preset (slug: jsString) (presetFontFamily: json)

definition find_js :: "'a list option \<Rightarrow> ('a \<Rightarrow> bool) \<Rightarrow> 'a option" where
  "find_js collection predicate =
     (case collection of None \<Rightarrow> None | Some xs \<Rightarrow> List.find predicate xs)"

text \<open>
  The props of the block in the editor. \<open>wrapperStyle\<close> is \<open>wrapperProps.style\<close>, an
  object from style keys to values, or \<open>undefined\<close>.
\<close>

record wrapper =
  wrapperStyle :: "(string \<rightharpoonup> json) option"
  otherWrapperProps :: "(string \<times> json) list"

record blockProps =
  name :: string
  attrs :: blockAttributes
  wrapperProps :: "wrapper option"
  otherBlockProps :: "(string \<times> json) list"

text \<open>
  \<open>{ ...source }\<close>: the entries of the source; spreading \<open>undefined\<close> gives none. In
  \<open>{ fontFamily: v, ...source }\<close> the entries of the source come last and win.
\<close>

definition spread :: "(string \<rightharpoonup> json) option \<Rightarrow> (string \<rightharpoonup> json)" where
  "spread source = (case source of None \<Rightarrow> Map.empty | Some entries \<Rightarrow> entries)"

text \<open>
  The wrapped component, as the props it renders \<open>BlockListBlock\<close> with. The registry of
  block types (by name) and the \<open>typography.fontFamilies\<close> setting are what
  \<open>hasBlockSupport\<close> and \<open>useSetting\<close> read.
\<close>

definition withFontFamilyInlineStyles ::
  "(string \<rightharpoonup> blockType) \<Rightarrow> preset list option \<Rightarrow> blockProps \<Rightarrow> blockProps" where
  "withFontFamilyInlineStyles registry fontFamilies props =
     (let blockName = name props;
          fontFamilyAttr = fontFamily (attrs props);
          styleAttr = style (attrs props);
          wp = wrapperProps props
      in if \<not> hasBlockSupport (registry blockName) FONT_FAMILY_SUPPORT_KEY
            \<or> hasBlockSupport (registry blockName) SKIP_TYPOGRAPHY_SERIALIZATION
            \<or> (case fontFamilyAttr of None \<Rightarrow> True | Some slugAttr \<Rightarrow> slugAttr = [])
            \<or> isTruthy (optProp (optProp styleAttr ''typography'') ''fontFamily'')
         then props
         else
           let fontFamilyValue =
                 (case find_js fontFamilies (\<lambda>p. Some (slug p) = fontFamilyAttr) of
                    None \<Rightarrow> JUndefined
                  | Some p \<Rightarrow> presetFontFamily p);
               newStyle = [''fontFamily'' \<mapsto> fontFamilyValue]
                            ++ spread (case wp of None \<Rightarrow> None | Some w \<Rightarrow> wrapperStyle w);
               newWrapper =
                 (case wp of
                    None \<Rightarrow> \<lparr> wrapperStyle = Some newStyle, otherWrapperProps = [] \<rparr>
                  | Some w \<Rightarrow> w\<lparr>wrapperStyle := Some newStyle\<rparr>)
           in props\<lparr>wrapperProps := Some newWrapper\<rparr>)"

text \<open>Reading the results: the class list of a \<open>className\<close>, the class of a slug, the
  entries of \<open>wrapperProps.style\<close>, and a string that is one class.\<close>

definition classNames :: "jsString option \<Rightarrow> jsString list" where
  "classNames cn = splitSpaces (case cn of None \<Rightarrow> [] | Some v \<Rightarrow> v)"

definition fontFamilyClass :: "jsString \<Rightarrow> jsString" where
  "fontFamilyClass slugAttr = jstr ''has-'' @ slugAttr @ jstr ''-font-family''"

definition isClass :: "jsString \<Rightarrow> bool" where
  "isClass w = (w \<noteq> [] \<and> list_all (\<lambda>c. \<not> isSpace c) w)"

definition styleOf :: "blockProps \<Rightarrow> (string \<rightharpoonup> json)" where
  "styleOf props =
     (case wrapperProps props of
        None \<Rightarrow> Map.empty
      | Some w \<Rightarrow> (case wrapperStyle w of None \<Rightarrow> Map.empty | Some entries \<Rightarrow> entries))"

definition wrapperRestOf :: "blockProps \<Rightarrow> (string \<times> json) list" where
  "wrapperRestOf props =
     (case wrapperProps props of None \<Rightarrow> [] | Some w \<Rightarrow> otherWrapperProps w)"

text \<open>Concrete inputs: a block type that supports font families, one that also skips the
  serialization, one that declares no support, and blocks with the slug \<open>arial\<close>.\<close>

definition fontBlock :: blockType where
  "fontBlock = \<lparr> attributes = Some Map.empty,
                 supports = [FONT_FAMILY_SUPPORT_KEY \<mapsto> JBool True] \<rparr>"

definition skippingBlock :: blockType where
  "skippingBlock = \<lparr> attributes = Some Map.empty,
     supports = [FONT_FAMILY_SUPPORT_KEY \<mapsto> JBool True,
                 SKIP_TYPOGRAPHY_SERIALIZATION \<mapsto> JBool True] \<rparr>"

definition plainBlock :: blockType where
  "plainBlock = \<lparr> attributes = Some Map.empty, supports = Map.empty \<rparr>"

definition arialAttributes :: blockAttributes where
  "arialAttributes = \<lparr> fontFamily = Some (jstr ''arial''), style = JUndefined \<rparr>"

definition arialBlock :: blockProps where
  "arialBlock = \<lparr> name = ''core/paragraph'', attrs = arialAttributes, wrapperProps = None,
                  otherBlockProps = [] \<rparr>"

definition serifBlock :: blockProps where
  "serifBlock = \<lparr> name = ''core/paragraph'', attrs = arialAttributes,
     wrapperProps = Some \<lparr> wrapperStyle = Some [''color'' \<mapsto> JStr ''red'',
                                               ''fontFamily'' \<mapsto> JStr ''serif''],
                          otherWrapperProps = [] \<rparr>,
     otherBlockProps = [] \<rparr>"

definition skippingRegistry :: "string \<rightharpoonup> blockType" where
  "skippingRegistry = [''core/paragraph'' \<mapsto> skippingBlock]"

definition fontRegistry :: "string \<rightharpoonup> blockType" where
  "fontRegistry = [''core/paragraph'' \<mapsto> fontBlock]"

definition fontFamiliesSetting :: "preset list option" where
  "fontFamiliesSetting = Some [Preset (jstr ''helvetica'') (JStr ''Helvetica, sans-serif''),
                              Preset (jstr ''arial'') (JStr ''Arial, sans-serif'')]"

section \<open>Audio URLs: packages/components/src/mobile/audio-player\<close>

text \<open>The delimiters of a URL, as code units.\<close>

definition SLASH :: nat where
  "SLASH = of_char (CHR ''/'')"

definition QUESTION :: nat where
  "QUESTION = of_char (CHR ''?'')"

definition HASH :: nat where
  "HASH = of_char (CHR ''#'')"

definition COLON :: nat where
  "COLON = of_char (CHR '':'')"

definition DOT :: nat where
  "DOT = of_char (CHR ''.'')"

text \<open>
  The parse result, and the steps of the parser. The query string and the fragment start
  at the first \<open>?\<close> or \<open>#\<close>. The path of \<open>scheme://authority/...\<close> is what follows the
  authority (nothing, when no \<open>/\<close> follows it); a string that does not start with a scheme
  and \<open>://\<close> is taken as a path. The final path segment is what follows the last \<open>/\<close> of
  the path, and the split is at the last dot.
\<close>

record audioUrl =
  title :: jsString
  extension :: jsString

definition stripQueryAndFragment :: "jsString \<Rightarrow> jsString" where
  "stripQueryAndFragment url = takeWhile (\<lambda>u. u \<noteq> QUESTION \<and> u \<noteq> HASH) url"

definition pathOf :: "jsString \<Rightarrow> jsString" where
  "pathOf s =
     (let scheme = takeWhile (\<lambda>u. u \<noteq> COLON) s;
          rest = dropWhile (\<lambda>u. u \<noteq> COLON) s
      in if take 3 rest = jstr ''://'' \<and> SLASH \<notin> set scheme
         then dropWhile (\<lambda>u. u \<noteq> SLASH) (drop 3 rest)
         else s)"

definition finalSegment :: "jsString \<Rightarrow> jsString" where
  "finalSegment path = rev (takeWhile (\<lambda>u. u \<noteq> SLASH) (rev path))"

definition splitLastDot :: "jsString \<Rightarrow> jsString \<times> jsString" where
  "splitLastDot segment =
     (if DOT \<in> set segment
      then (rev (tl (dropWhile (\<lambda>u. u \<noteq> DOT) (rev segment))),
            rev (takeWhile (\<lambda>u. u \<noteq> DOT) (rev segment)))
      else (segment, []))"

text \<open>
  Modelled from the spec: \<open>parseAudioUrl\<close> of \<open>audio-url-parser.js\<close>, which is not among
  the sources (only its test is). Section 4.2 of the specification: "given a URL string,
  extract the final path segment, strip query string and fragment, and split on the
  last \<open>.\<close> to separate a title from an extension; if no \<open>.\<close> exists in the segment,
  the extension is empty and the whole segment is the title." The query string and the
  fragment are not part of the path, so they are cut off before the path is read.
\<close>

definition parseAudioUrl :: "jsString \<Rightarrow> audioUrl" where
  "parseAudioUrl url =
     (let segment = finalSegment (pathOf (stripQueryAndFragment url))
      in \<lparr> title = fst (splitLastDot segment), extension = snd (splitLastDot segment) \<rparr>)"

section \<open>Properties of the ref merging\<close>

subsection \<open>Assignments\<close>

lemma safeRef_cases:
  "safeRef (RefCallback f)" "safeRef (RefObject r)" "safeRef (PlainObject p)"
  "safeRef (CustomObject c answer)" "\<not> safeRef (BareObject b)" "safeRef RefNull"
  "safeRef RefUndefined"
  by (simp_all add: safeRef_def)

lemma ignored_cases:
  "\<not> ignored (RefCallback f)" "\<not> ignored (RefObject r)" "ignored (PlainObject p)"
  "\<not> ignored (CustomObject c answer)" "\<not> ignored (BareObject b)" "ignored RefNull"
  "ignored RefUndefined"
  by (simp_all add: ignored_def)

lemma assignRef_safe: "safeRef r \<Longrightarrow> assignRef r v w = Inr (w @ assigned r v)"
  by (cases r) (simp_all add: safeRef_cases)

lemma assignRef_unsafe: "\<not> safeRef r \<Longrightarrow> assignRef r v w = Inl TypeError"
  by (cases r) (simp_all add: safeRef_cases)

lemma assignRef_ignored: "ignored r \<Longrightarrow> assignRef r v w = Inr w"
  by (cases r) (simp_all add: ignored_cases)

lemma takeWhile_safe: "list_all safeRef rs \<Longrightarrow> takeWhile safeRef rs = rs"
  by (induction rs) simp_all

lemma assignAll_events:
  "assignAll rs v w =
     (if list_all safeRef rs then None else Some TypeError,
      w @ concat (map (\<lambda>r. assigned r v) (takeWhile safeRef rs)))"
proof (induction rs arbitrary: w)
  case Nil
  show ?case by simp
next
  case (Cons r rs)
  show ?case
  proof (cases "safeRef r")
    case True
    then show ?thesis by (simp add: assignRef_safe Cons.IH)
  next
    case False
    then show ?thesis by (simp add: assignRef_unsafe)
  qed
qed

lemma assignAll_without_ignored:
  "assignAll (filter (\<lambda>r. \<not> ignored r) rs) v w = assignAll rs v w"
proof (induction rs arbitrary: w)
  case Nil
  show ?case by simp
next
  case (Cons r rs)
  show ?case
  proof (cases "ignored r")
    case True
    then show ?thesis by (simp add: assignRef_ignored Cons.IH)
  next
    case False
    then show ?thesis by (simp add: Cons.IH split: sum.splits)
  qed
qed

subsection \<open>The merged callback\<close>

lemma mergedRef_fields:
  "callbackMemo (snd (mergedRef v s)) = callbackMemo s"
  "allocated (snd (mergedRef v s)) = allocated s"
  "didElementChange (snd (mergedRef v s)) = True"
  "element (snd (mergedRef v s)) = v"
  "previousRefs (snd (mergedRef v s)) = previousRefs s"
  "currentRefs (snd (mergedRef v s)) = currentRefs s"
  "layoutDeps (snd (mergedRef v s)) = layoutDeps s"
  "caught (snd (mergedRef v s)) = caught s"
  by (simp_all add: mergedRef_def Let_def split: prod.splits)

lemma mergedRef_effects:
  "effects (snd (mergedRef v s)) =
   effects s @ concat (map (\<lambda>r. assigned r v)
     (takeWhile safeRef (if truthy v then currentRefs s else previousRefs s)))"
  by (simp add: mergedRef_def Let_def assignAll_events)

lemma mergedRef_thrown:
  "fst (mergedRef v s) =
   (if list_all safeRef (if truthy v then currentRefs s else previousRefs s) then None
    else Some TypeError)"
  by (simp add: mergedRef_def Let_def assignAll_events)

lemma captured_fields:
  "callbackMemo (captured r) = callbackMemo (snd r)"
  "allocated (captured r) = allocated (snd r)"
  "didElementChange (captured r) = didElementChange (snd r)"
  "element (captured r) = element (snd r)"
  "previousRefs (captured r) = previousRefs (snd r)"
  "currentRefs (captured r) = currentRefs (snd r)"
  "layoutDeps (captured r) = layoutDeps (snd r)"
  "effects (captured r) = effects (snd r)"
  by (simp_all add: captured_def split: prod.splits option.splits)

lemma captured_caught:
  "caught (captured r) = caught (snd r) @ (case fst r of None \<Rightarrow> [] | Some err \<Rightarrow> [err])"
  by (simp add: captured_def split: prod.splits option.splits)

lemma attach_fields:
  "callbackMemo (attach chg s) = callbackMemo s"
  "allocated (attach chg s) = allocated s"
  "previousRefs (attach chg s) = previousRefs s"
  "currentRefs (attach chg s) = currentRefs s"
  "layoutDeps (attach chg s) = layoutDeps s"
  by (cases chg; simp add: mergedRef_fields captured_fields)+

lemma attach_changed: "chg \<noteq> Same \<Longrightarrow> didElementChange (attach chg s) = True"
  by (cases chg) (simp_all add: mergedRef_fields captured_fields)

subsection \<open>The layout effects\<close>

lemma refAt_safe: "list_all safeRef prev \<Longrightarrow> safeRef (refAt prev i)"
  by (simp add: refAt_def list_all_length safeRef_cases)

lemma diffStep_safe:
  assumes "list_all safeRef prev" and "safeRef (snd ir)"
  shows "diffStep prev e w ir =
         (None, w @ (if snd ir \<noteq> refAt prev (fst ir)
                     then assigned (refAt prev (fst ir)) Null @ assigned (snd ir) e else []))"
  using assms
  by (simp add: diffStep_def Let_def assignRef_safe refAt_safe)

lemma forEach_safe:
  assumes "list_all safeRef prev" and "list_all safeRef (map snd irs)"
  shows "forEach (diffStep prev e) irs w =
         (None, w @ concat (map (\<lambda>ir. if snd ir \<noteq> refAt prev (fst ir)
                                   then assigned (refAt prev (fst ir)) Null @ assigned (snd ir) e
                                   else []) irs))"
  using assms(2)
proof (induction irs arbitrary: w)
  case Nil
  show ?case by simp
next
  case (Cons ir irs)
  then have ir: "safeRef (snd ir)" and irs: "list_all safeRef (map snd irs)" by simp_all
  show ?case
    by (simp add: diffStep_safe [OF assms(1) ir] Cons.IH [OF irs])
qed


lemma areHookInputsEqual_same_length:
  "length a = length b \<Longrightarrow> areHookInputsEqual a b = (a = b)"
  unfolding areHookInputsEqual_def
  by (induction a b rule: list_induct2) auto

lemma areHookInputsEqual_Nil: "areHookInputsEqual [] prevDeps = True"
  by (simp add: areHookInputsEqual_def)


lemma layoutEffects_fields:
  "callbackMemo (layoutEffects refs s) = callbackMemo s"
  "allocated (layoutEffects refs s) = allocated s"
  "element (layoutEffects refs s) = element s"
  "currentRefs (layoutEffects refs s) = currentRefs s"
  by (simp_all add: layoutEffects_def resetEffect_def refsEffect_def Let_def
      split: prod.splits option.splits)

lemma layoutEffects_changed:
  "didElementChange s = True \<Longrightarrow> effects (layoutEffects refs s) = effects s"
  by (simp add: layoutEffects_def resetEffect_def refsEffect_def Let_def)

lemma layoutEffects_changed_state:
  assumes "didElementChange s = True"
    and "layoutDeps s = None \<or> (layoutDeps s = Some (previousRefs s)
           \<and> length (previousRefs s) = length refs)"
  shows "committed (layoutEffects refs s) \<and> previousRefs (layoutEffects refs s) = refs
         \<and> caught (layoutEffects refs s) = caught s"
  using assms
  by (cases "refs = previousRefs s")
    (auto simp: layoutEffects_def resetEffect_def refsEffect_def committed_def Let_def
      areHookInputsEqual_same_length)

lemma layoutEffects_same_element:
  assumes "didElementChange s = False"
    and "layoutDeps s = None \<or> (layoutDeps s = Some (previousRefs s)
           \<and> length (previousRefs s) = length refs)"
    and "list_all safeRef (previousRefs s)" and "list_all safeRef refs"
  shows "committed (layoutEffects refs s) \<and> previousRefs (layoutEffects refs s) = refs
         \<and> caught (layoutEffects refs s) = caught s"
proof (cases "layoutDeps s = Some (previousRefs s) \<and> refs = previousRefs s")
  case True
  then show ?thesis
    using assms
    by (simp add: layoutEffects_def resetEffect_def committed_def Let_def
        areHookInputsEqual_same_length)
next
  case False
  have safe: "list_all safeRef (map snd (enumerate 0 refs))"
    using assms(4) by simp
  from False assms(2) have runs:
    "(case layoutDeps s of None \<Rightarrow> True | Some prevDeps \<Rightarrow> \<not> areHookInputsEqual refs prevDeps)"
    by (auto simp: areHookInputsEqual_same_length)
  show ?thesis
    using runs assms(1)
    by (simp add: layoutEffects_def resetEffect_def refsEffect_def committed_def Let_def
        forEach_safe [OF assms(3) safe])
qed


subsection \<open>Render cycles\<close>

lemma useMergeRefs_callback:
  "fst (useMergeRefs refs s) = memoised s \<and> memoised (snd (useMergeRefs refs s)) = memoised s"
  by (simp add: useMergeRefs_def useCallback_def memoised_def areHookInputsEqual_Nil Let_def
      split: option.splits prod.splits)

lemma useMergeRefs_fields:
  "effects (snd (useMergeRefs refs s)) = effects s"
  "currentRefs (snd (useMergeRefs refs s)) = refs"
  "previousRefs (snd (useMergeRefs refs s)) = previousRefs s"
  "element (snd (useMergeRefs refs s)) = element s"
  "didElementChange (snd (useMergeRefs refs s)) = didElementChange s"
  "layoutDeps (snd (useMergeRefs refs s)) = layoutDeps s"
  "caught (snd (useMergeRefs refs s)) = caught s"
  by (simp_all add: useMergeRefs_def useCallback_def areHookInputsEqual_Nil Let_def
      split: option.splits prod.splits)

lemma cycle_parts:
  "fst (cycle refs chg s) = fst (useMergeRefs refs s)"
  "snd (cycle refs chg s) = layoutEffects refs (attach chg (snd (useMergeRefs refs s)))"
  by (simp_all add: cycle_def split: prod.splits)

lemma cycle_callback:
  "fst (cycle refs chg s) = memoised s \<and> memoised (snd (cycle refs chg s)) = memoised s"
proof -
  have "memoised (snd (cycle refs chg s)) = memoised (snd (useMergeRefs refs s))"
    unfolding cycle_parts memoised_def
    by (simp add: layoutEffects_fields attach_fields split: option.splits)
  then show ?thesis
    by (simp add: cycle_parts useMergeRefs_callback)
qed

text \<open>
  A render cycle with a list of the one length leaves a committed state that has stored
  that list, from the first cycle of an instance on.
\<close>

lemma cycle_commits:
  assumes "didElementChange s = False"
    and "layoutDeps s = None \<or> (layoutDeps s = Some (previousRefs s)
           \<and> length (previousRefs s) = length refs)"
    and "list_all safeRef (previousRefs s)" and "list_all safeRef refs"
  shows "committed (snd (cycle refs chg s)) \<and> previousRefs (snd (cycle refs chg s)) = refs"
proof -
  let ?a = "attach chg (snd (useMergeRefs refs s))"
  have deps: "layoutDeps ?a = None \<or> (layoutDeps ?a = Some (previousRefs ?a)
                \<and> length (previousRefs ?a) = length refs)"
    and prev: "list_all safeRef (previousRefs ?a)"
    using assms by (simp_all add: attach_fields useMergeRefs_fields)
  show ?thesis
  proof (cases "chg = Same")
    case True
    then have "didElementChange ?a = False"
      using assms(1) by (simp add: useMergeRefs_fields)
    from layoutEffects_same_element [OF this deps prev assms(4)] show ?thesis
      by (simp add: cycle_parts)
  next
    case False
    then have "didElementChange ?a = True" by (rule attach_changed)
    from layoutEffects_changed_state [OF this deps] show ?thesis
      by (simp add: cycle_parts)
  qed
qed

lemma run_Cons: "snd (run (c # cs) s) = snd (run cs (snd (cycle (fst c) (snd c) s)))"
  by (cases c) (simp add: case_prod_beta)

lemma run_commits:
  assumes "cs \<noteq> []" and "\<forall>c\<in>set cs. length (fst c) = n \<and> list_all safeRef (fst c)"
    and "didElementChange s = False"
    and "layoutDeps s = None \<or> (layoutDeps s = Some (previousRefs s) \<and> length (previousRefs s) = n)"
    and "list_all safeRef (previousRefs s)"
  shows "committed (snd (run cs s)) \<and> previousRefs (snd (run cs s)) = fst (last cs)"
  using assms
proof (induction cs arbitrary: s)
  case Nil
  then show ?case by simp
next
  case (Cons c cs)
  let ?s1 = "snd (cycle (fst c) (snd c) s)"
  have c: "length (fst c) = n" "list_all safeRef (fst c)" using Cons.prems(2) by simp_all
  have step: "committed ?s1 \<and> previousRefs ?s1 = fst c"
    using cycle_commits [of s "fst c" "snd c"] Cons.prems(3,4,5) c by simp
  show ?case
  proof (cases "cs = []")
    case True
    then show ?thesis using step by (simp add: run_Cons)
  next
    case False
    have "committed (snd (run cs ?s1)) \<and> previousRefs (snd (run cs ?s1)) = fst (last cs)"
    proof (rule Cons.IH [OF False])
      show "\<forall>c\<in>set cs. length (fst c) = n \<and> list_all safeRef (fst c)"
        using Cons.prems(2) by simp
      show "didElementChange ?s1 = False" using step by (simp add: committed_def)
      show "layoutDeps ?s1 = None \<or> (layoutDeps ?s1 = Some (previousRefs ?s1)
              \<and> length (previousRefs ?s1) = n)"
        using step c by (simp add: committed_def)
      show "list_all safeRef (previousRefs ?s1)" using step c by simp
    qed
    then show ?thesis using False by (simp add: run_Cons)
  qed
qed

lemma run_from_mount:
  assumes "cs \<noteq> []" and "\<forall>c\<in>set cs. length (fst c) = n \<and> list_all safeRef (fst c)"
  shows "committed (snd (run cs mountState)) \<and> previousRefs (snd (run cs mountState)) = fst (last cs)"
  by (rule run_commits [OF assms]) (simp_all add: mountState_def)


lemma mountedOne_state:
  "mountedOne = \<lparr> element = Node 7, didElementChange = False, previousRefs = [RefCallback 0],
     currentRefs = [RefCallback 0], layoutDeps = Some [RefCallback 0],
     callbackMemo = Some (0, []), allocated = 1, effects = [Called 0 (Node 7)], caught = [] \<rparr>"
  by (simp add: mountedOne_def cycle_def useMergeRefs_def useCallback_def layoutEffects_def
      refsEffect_def resetEffect_def mergedRef_def captured_def mountState_def Let_def)

lemma mountedTwo_state:
  "mountedTwo = \<lparr> element = Node 7, didElementChange = False,
     previousRefs = [RefCallback 0, RefCallback 1], currentRefs = [RefCallback 0, RefCallback 1],
     layoutDeps = Some [RefCallback 0, RefCallback 1], callbackMemo = Some (0, []),
     allocated = 1, effects = [Called 0 (Node 7), Called 1 (Node 7)], caught = [] \<rparr>"
  by (simp add: mountedTwo_def cycle_def useMergeRefs_def useCallback_def layoutEffects_def
      refsEffect_def resetEffect_def mergedRef_def captured_def mountState_def Let_def)


subsection \<open>The list changes, the element stays\<close>




subsection \<open>The identity of the merged callback\<close>

text \<open>
  Claim C2. Over any sequence of render cycles of one instance, whatever ref lists they
  pass and whatever happens to the element, every render returns the same callback: the
  function held by \<open>useCallback\<close>, which is the one the first render created.
\<close>

theorem useMergeRefs_stable_callback:
  "fst (run cs s) = replicate (length cs) (memoised s)"
proof (induction cs arbitrary: s)
  case Nil
  show ?case by simp
next
  case (Cons c cs)
  obtain refs chg where c: "c = (refs, chg)" by (cases c)
  obtain cb s1 where cy: "cycle refs chg s = (cb, s1)" by (cases "cycle refs chg s")
  from cycle_callback [of refs chg s] cy have cb: "cb = memoised s" and s1: "memoised s1 = memoised s"
    by simp_all
  show ?case
    by (simp add: c cy cb Cons.IH [of s1] s1 case_prod_beta)
qed

theorem useMergeRefs_stable_callback_witness:
  "fst (run [([RefCallback 0], Mounted (7::nat)), ([RefCallback 1, RefObject 2], Same),
             ([], Unmounted)] mountState) = [0, 0, 0]"
  using useMergeRefs_stable_callback
    [of "[([RefCallback 0], Mounted (7::nat)), ([RefCallback 1, RefObject 2], Same), ([], Unmounted)]"
        mountState]
  by (simp add: memoised_def mountState_def numeral_3_eq_3)

subsection \<open>The element and the list change in the same cycle\<close>

text \<open>
  Claim C3. In a render cycle in which the element changes (it is mounted, unmounted or
  swapped), whatever the new ref list is, the assignments of the cycle are exactly those
  of the merged callback: the list effect assigns nothing, so no ref gets a second
  \<open>null\<close> or the same element a second time from it.
\<close>

theorem cycle_element_change_only:
  assumes "chg \<noteq> Same"
  shows "effects (snd (cycle refs chg s)) = effects (attach chg (snd (useMergeRefs refs s)))"
  using assms by (simp add: cycle_parts layoutEffects_changed attach_changed)

theorem cycle_element_change_only_witness:
  "Swapped (8::nat) \<noteq> Same
   \<and> effects (snd (cycle [RefCallback 2, RefCallback 1] (Swapped 8) mountedTwo)) =
       effects mountedTwo @ [Called 0 Null, Called 1 Null, Called 2 (Node 8), Called 1 (Node 8)]"
proof -
  have h: "Swapped (8::nat) \<noteq> Same" by simp
  from cycle_element_change_only [OF h, of "[RefCallback 2, RefCallback 1]" mountedTwo] h
  show ?thesis
    by (simp add: mountedTwo_state useMergeRefs_def useCallback_def areHookInputsEqual_def
        mergedRef_def captured_def Let_def)
qed

subsection \<open>The element changes\<close>

text \<open>
  Claim C4, amended. Called with a new element, the merged callback assigns that element
  to every ref of the current list, in order, skipping none; called with \<open>null\<close>, it
  assigns \<open>null\<close> to every ref of \<open>previousRefs\<close>, the list that the list effect stored
  last, in order, whether or not those refs are in the current list. Both hold for a list
  without an entry on which \<open>assignRef\<close> raises an exception (the loop ends at such an
  entry), and then the callback raises none. Either way it records the value as the
  element. In an instance that has so far only gone through render cycles of its owner,
  all with lists of one length and without such an entry, a cycle that passes the list of
  the previous cycle again and unmounts the element assigns \<open>null\<close> to every ref of the
  current list.
\<close>

theorem mergedRef_assigns_every_ref:
  "(list_all safeRef (currentRefs s) \<longrightarrow>
      effects (snd (mergedRef (Node n) s)) =
        effects s @ concat (map (\<lambda>r. assigned r (Node n)) (currentRefs s))
      \<and> fst (mergedRef (Node n) s) = None)
   \<and> (list_all safeRef (previousRefs s) \<longrightarrow>
        effects (snd (mergedRef Null s)) =
          effects s @ concat (map (\<lambda>r. assigned r Null) (previousRefs s))
        \<and> fst (mergedRef Null s) = None)
   \<and> element (snd (mergedRef v s)) = v
   \<and> (cs \<noteq> [] \<and> (\<forall>c\<in>set cs. length (fst c) = length refs \<and> list_all safeRef (fst c))
        \<and> fst (last cs) = refs \<longrightarrow>
        effects (snd (cycle refs Unmounted (snd (run cs mountState)))) =
          effects (snd (run cs mountState)) @ concat (map (\<lambda>r. assigned r Null) refs))"
proof (intro conjI impI)
  assume "list_all safeRef (currentRefs s)"
  then show "effects (snd (mergedRef (Node n) s)) =
      effects s @ concat (map (\<lambda>r. assigned r (Node n)) (currentRefs s))"
    and "fst (mergedRef (Node n) s) = None"
    by (simp_all add: mergedRef_effects mergedRef_thrown takeWhile_safe)
next
  assume "list_all safeRef (previousRefs s)"
  then show "effects (snd (mergedRef Null s)) =
      effects s @ concat (map (\<lambda>r. assigned r Null) (previousRefs s))"
    and "fst (mergedRef Null s) = None"
    by (simp_all add: mergedRef_effects mergedRef_thrown takeWhile_safe)
next
  show "element (snd (mergedRef v s)) = v" by (simp add: mergedRef_fields)
next
  assume h: "cs \<noteq> [] \<and> (\<forall>c\<in>set cs. length (fst c) = length refs \<and> list_all safeRef (fst c))
      \<and> fst (last cs) = refs"
  let ?s = "snd (run cs mountState)"
  let ?s1 = "snd (useMergeRefs refs ?s)"
  from h have prev: "previousRefs ?s = refs"
    using run_from_mount [of cs "length refs"] by simp
  from h have "last cs \<in> set cs" by simp
  with h have safe: "list_all safeRef refs" by auto
  have ch: "didElementChange (attach Unmounted ?s1) = True"
    by (rule attach_changed) simp
  have "effects (snd (cycle refs Unmounted ?s)) = effects (attach Unmounted ?s1)"
    unfolding cycle_parts by (rule layoutEffects_changed [OF ch])
  also have "\<dots> = effects (snd (mergedRef Null ?s1))"
    by (simp add: captured_fields)
  also have "\<dots> = effects ?s @ concat (map (\<lambda>r. assigned r Null) refs)"
    using safe
    by (simp add: mergedRef_effects useMergeRefs_fields prev takeWhile_safe)
  finally show "effects (snd (cycle refs Unmounted ?s)) =
      effects ?s @ concat (map (\<lambda>r. assigned r Null) refs)" .
qed

theorem mergedRef_assigns_every_ref_witness:
  "list_all safeRef [RefCallback 0, RefObject 5]
   \<and> effects (snd (mergedRef (Node 9)
        (mountedOne\<lparr>currentRefs := [RefCallback 0, RefObject 5]\<rparr>))) =
       effects mountedOne @ [Called 0 (Node 9), Stored 5 (Node 9)]
   \<and> effects (snd (mergedRef Null
        (mountedOne\<lparr>previousRefs := [RefCallback 0, RefObject 5]\<rparr>))) =
       effects mountedOne @ [Called 0 Null, Stored 5 Null]
   \<and> effects (snd (cycle [RefCallback 0, RefObject 5] Unmounted
        (snd (run [([RefCallback 0, RefObject 5], Mounted (7::nat))] mountState)))) =
       [Called 0 (Node 7), Stored 5 (Node 7), Called 0 Null, Stored 5 Null]"
proof -
  have safe: "list_all safeRef [RefCallback 0, RefObject 5]" by (simp add: safeRef_cases)
  have s: "snd (run [([RefCallback 0, RefObject 5], Mounted (7::nat))] mountState) =
      \<lparr> element = Node 7, didElementChange = False,
        previousRefs = [RefCallback 0, RefObject 5], currentRefs = [RefCallback 0, RefObject 5],
        layoutDeps = Some [RefCallback 0, RefObject 5], callbackMemo = Some (0, []),
        allocated = 1, effects = [Called 0 (Node 7), Stored 5 (Node 7)], caught = [] \<rparr>"
    by (simp add: cycle_def useMergeRefs_def useCallback_def layoutEffects_def
        refsEffect_def resetEffect_def mergedRef_def captured_def mountState_def Let_def)
  have h: "[([RefCallback 0, RefObject 5], Mounted (7::nat))] \<noteq> []
      \<and> (\<forall>c\<in>set [([RefCallback 0, RefObject 5], Mounted (7::nat))].
            length (fst c) = length [RefCallback 0, RefObject 5] \<and> list_all safeRef (fst c))
      \<and> fst (last [([RefCallback 0, RefObject 5], Mounted (7::nat))])
          = [RefCallback 0, RefObject 5]"
    by (simp add: safeRef_cases)
  from mergedRef_assigns_every_ref
      [of "mountedOne\<lparr>currentRefs := [RefCallback 0, RefObject 5]\<rparr>" 9 Null
          "[([RefCallback 0, RefObject 5], Mounted (7::nat))]" "[RefCallback 0, RefObject 5]"]
    mergedRef_assigns_every_ref
      [of "mountedOne\<lparr>previousRefs := [RefCallback 0, RefObject 5]\<rparr>" 9 Null "[]" "[]"]
    safe h
  show ?thesis
    by (simp add: mountedOne_state s del: run.simps)
qed

text \<open>
  The claim as stated fails on an unmount in the render that changes the list: the
  instance is mounted with callback 0, the next render passes callback 1, and the element
  goes away. The current list is callback 1, and it is not called; \<open>null\<close> goes to
  callback 0, the ref that holds the element. It also fails on a list with an object
  that has no \<open>hasOwnProperty\<close>: the loop ends there, and callback 0 behind it is skipped.
\<close>

theorem mergedRef_unmount_counterexample:
  "currentRefs (snd (useMergeRefs [RefCallback 1] mountedOne)) = [RefCallback 1]
   \<and> effects (snd (mergedRef Null (snd (useMergeRefs [RefCallback 1] mountedOne)))) =
       effects mountedOne @ [Called 0 Null]
   \<and> Called 1 Null \<notin> set (effects (snd (mergedRef Null
        (snd (useMergeRefs [RefCallback 1] mountedOne)))))
   \<and> effects (snd (cycle [RefCallback 1] Unmounted mountedOne)) = effects mountedOne @ [Called 0 Null]
   \<and> effects (snd (mergedRef (Node 9) (mountedOne\<lparr>currentRefs := [BareObject 3, RefCallback 0]\<rparr>)))
       = effects mountedOne"
  by (simp add: mountedOne_state cycle_def useMergeRefs_def useCallback_def areHookInputsEqual_def
      layoutEffects_def refsEffect_def resetEffect_def mergedRef_def captured_def Let_def)

subsection \<open>Entries that are not refs\<close>

text \<open>
  Claim C10, amended. Assigning any value to \<open>null\<close>, to \<open>undefined\<close> or to an object
  without an own \<open>current\<close> property whose \<open>hasOwnProperty\<close> is the method inherited from
  \<open>Object.prototype\<close> returns normally and changes nothing. So the merged callback,
  called with any value, raises what it raises and assigns what it assigns on the lists
  without such entries, and on a list of nothing but such entries it returns normally and
  assigns nothing.
\<close>

theorem assignRef_ignores_non_refs:
  "assignRef RefNull v w = Inr w \<and> assignRef RefUndefined v w = Inr w
   \<and> assignRef (PlainObject p) v w = Inr w
   \<and> fst (mergedRef v s) =
       fst (mergedRef v (s\<lparr>currentRefs := filter (\<lambda>r. \<not> ignored r) (currentRefs s),
                           previousRefs := filter (\<lambda>r. \<not> ignored r) (previousRefs s)\<rparr>))
   \<and> effects (snd (mergedRef v s)) =
       effects (snd (mergedRef v (s\<lparr>currentRefs := filter (\<lambda>r. \<not> ignored r) (currentRefs s),
                                    previousRefs := filter (\<lambda>r. \<not> ignored r) (previousRefs s)\<rparr>)))
   \<and> (list_all ignored (if truthy v then currentRefs s else previousRefs s) \<longrightarrow>
        fst (mergedRef v s) = None \<and> effects (snd (mergedRef v s)) = effects s)"
proof -
  have only_ignored: "assignAll rs v w' = (None, w')" if "list_all ignored rs" for rs and w' :: "'a effect list"
    using that by (induction rs) (simp_all add: assignRef_ignored)
  show ?thesis
    by (auto simp: mergedRef_def Let_def assignAll_without_ignored only_ignored
        split: prod.splits)
qed

theorem assignRef_ignores_non_refs_witness:
  "list_all ignored [RefNull, PlainObject 3, RefUndefined]
   \<and> assignRef (PlainObject 3) (Node (7::nat)) [Called 0 Null] = Inr [Called 0 Null]
   \<and> fst (mergedRef (Node 7) (mountedOne\<lparr>currentRefs := [RefNull, PlainObject 3, RefUndefined]\<rparr>))
       = None
   \<and> effects (snd (mergedRef (Node 7)
        (mountedOne\<lparr>currentRefs := [RefNull, PlainObject 3, RefUndefined]\<rparr>))) = effects mountedOne"
  using assignRef_ignores_non_refs [of "Node (7::nat)" "[Called 0 Null]" 3
      "mountedOne\<lparr>currentRefs := [RefNull, PlainObject 3, RefUndefined]\<rparr>"]
  by (simp add: ignored_cases mountedOne_state mergedRef_def Let_def)

text \<open>
  The claim as stated fails on two objects without an own \<open>current\<close> property: one that
  has no \<open>hasOwnProperty\<close> method, where the assignment raises a TypeError (and the merged
  callback with it, before it reaches callback 0), and one whose own \<open>hasOwnProperty\<close>
  returns true, where the value is stored.
\<close>

theorem assignRef_non_refs_counterexample:
  "assignRef (BareObject 3) (Node (7::nat)) [] = Inl TypeError
   \<and> assignRef (CustomObject 4 True) (Node (7::nat)) [] = Inr [Stored 4 (Node 7)]
   \<and> fst (mergedRef (Node 7) (mountedOne\<lparr>currentRefs := [BareObject 3, RefCallback 0]\<rparr>))
       = Some TypeError
   \<and> effects (snd (mergedRef (Node 7) (mountedOne\<lparr>currentRefs := [BareObject 3, RefCallback 0]\<rparr>)))
       = effects mountedOne"
  by (simp add: mountedOne_state mergedRef_def Let_def)

section \<open>Properties of the font family support\<close>

subsection \<open>The class list\<close>

declare splitSpaces.simps [simp del]

lemma jstr_space: "jstr '' '' = [32]"
  by (simp add: jstr_def)

lemma isSpace_space: "isSpace 32"
  by (simp add: isSpace_def)

lemma uniqFrom_cong: "set s1 = set s2 \<Longrightarrow> uniqFrom s1 xs = uniqFrom s2 xs"
proof (induction xs arbitrary: s1 s2)
  case Nil
  show ?case by simp
next
  case (Cons x xs)
  have "uniqFrom (x # s1) xs = uniqFrom (x # s2) xs"
    by (rule Cons.IH) (simp add: Cons.prems)
  moreover have "uniqFrom s1 xs = uniqFrom s2 xs"
    by (rule Cons.IH) (rule Cons.prems)
  ultimately show ?case by (simp add: Cons.prems)
qed

lemma set_uniqFrom: "set (uniqFrom seen xs) = set xs - set seen"
  by (induction xs arbitrary: seen) auto

lemma uniqFrom_append:
  "uniqFrom seen (xs @ ys) = uniqFrom seen xs @ uniqFrom (xs @ seen) ys"
proof (induction xs arbitrary: seen)
  case Nil
  show ?case by simp
next
  case (Cons x xs)
  show ?case
  proof (cases "x \<in> set seen")
    case True
    have "uniqFrom (xs @ seen) ys = uniqFrom ((x # xs) @ seen) ys"
      by (rule uniqFrom_cong) (use True in auto)
    then show ?thesis by (simp add: True Cons.IH)
  next
    case False
    have "uniqFrom (xs @ x # seen) ys = uniqFrom ((x # xs) @ seen) ys"
      by (rule uniqFrom_cong) auto
    then show ?thesis by (simp add: False Cons.IH)
  qed
qed

lemma uniqFrom_distinct:
  "distinct xs \<Longrightarrow> set xs \<inter> set seen = {} \<Longrightarrow> uniqFrom seen xs = xs"
  by (induction xs arbitrary: seen) auto

lemma distinct_uniqFrom: "distinct (uniqFrom seen xs)"
  by (induction xs arbitrary: seen) (auto simp: set_uniqFrom)

lemma uniq_uniq_append: "uniq (uniq xs @ ys) = uniq (xs @ ys)"
proof -
  have "uniqFrom [] (uniqFrom [] xs) = uniqFrom [] xs"
    by (rule uniqFrom_distinct) (simp_all add: distinct_uniqFrom)
  moreover have "uniqFrom (uniqFrom [] xs @ []) ys = uniqFrom (xs @ []) ys"
    by (rule uniqFrom_cong) (simp add: set_uniqFrom)
  ultimately show ?thesis
    by (simp add: uniq_def uniqFrom_append)
qed

lemma uniq_snoc: "uniq (xs @ [c]) = (if c \<in> set xs then uniq xs else uniq xs @ [c])"
  by (simp add: uniq_def uniqFrom_append)

lemma set_uniq: "set (uniq xs) = set xs"
  by (simp add: uniq_def set_uniqFrom)

lemma splitSpaces_none: "dropWhile isSpace s = [] \<Longrightarrow> splitSpaces s = []"
  by (subst splitSpaces.simps) (simp only: list.case)

lemma splitSpaces_some:
  "dropWhile isSpace s = c # cs \<Longrightarrow>
   splitSpaces s = takeWhile (\<lambda>x. \<not> isSpace x) (c # cs)
                   # splitSpaces (dropWhile (\<lambda>x. \<not> isSpace x) (c # cs))"
  by (subst splitSpaces.simps) (simp only: list.case)

lemma splitSpaces_dropWhile: "splitSpaces (dropWhile isSpace s) = splitSpaces s"
  by (simp add: splitSpaces.simps [of s] splitSpaces.simps [of "dropWhile isSpace s"] dropWhile_idem)

lemma splitSpaces_append_space:
  "isSpace c \<Longrightarrow> splitSpaces (a @ c # b) = splitSpaces a @ splitSpaces b"
proof (induction a rule: splitSpaces.induct)
  case (1 s)
  show ?case
  proof (cases "dropWhile isSpace s")
    case Nil
    then have all: "\<forall>x\<in>set s. isSpace x" by (simp add: dropWhile_eq_Nil_conv)
    have "splitSpaces (s @ c # b) = splitSpaces (dropWhile isSpace (s @ c # b))"
      by (simp add: splitSpaces_dropWhile)
    also have "dropWhile isSpace (s @ c # b) = dropWhile isSpace b"
      using all "1.prems" by (simp add: dropWhile_append2)
    also have "splitSpaces (dropWhile isSpace b) = splitSpaces b"
      by (rule splitSpaces_dropWhile)
    finally show ?thesis by (simp add: splitSpaces_none [OF Nil])
  next
    case (Cons x xs)
    have nx: "\<not> isSpace x" using Cons by (metis hd_dropWhile list.sel(1) list.distinct(1))
    have "x \<in> set s" using Cons by (metis list.set_intros(1) set_dropWhileD)
    then have "dropWhile isSpace (s @ c # b) = (x # xs) @ c # b"
      using nx Cons by (simp add: dropWhile_append1)
    then have d: "dropWhile isSpace (s @ c # b) = x # (xs @ c # b)" by simp
    have t: "takeWhile (\<lambda>x. \<not> isSpace x) ((x # xs) @ c # b) = takeWhile (\<lambda>x. \<not> isSpace x) (x # xs)"
      using "1.prems" by (simp add: takeWhile_tail)
    have e: "dropWhile (\<lambda>x. \<not> isSpace x) ((x # xs) @ c # b)
             = dropWhile (\<lambda>x. \<not> isSpace x) (x # xs) @ c # b"
      using "1.prems" by (simp add: dropWhile_append3)
    have "splitSpaces (s @ c # b) =
          takeWhile (\<lambda>x. \<not> isSpace x) ((x # xs) @ c # b)
          # splitSpaces (dropWhile (\<lambda>x. \<not> isSpace x) ((x # xs) @ c # b))"
      using splitSpaces_some [OF d] by simp
    also have "\<dots> = takeWhile (\<lambda>x. \<not> isSpace x) (x # xs) #
                     splitSpaces (dropWhile (\<lambda>x. \<not> isSpace x) (x # xs) @ c # b)"
      by (simp only: t e)
    also have "\<dots> = takeWhile (\<lambda>x. \<not> isSpace x) (x # xs) #
                     (splitSpaces (dropWhile (\<lambda>x. \<not> isSpace x) (x # xs)) @ splitSpaces b)"
      using "1.IH" [OF Cons "1.prems"] by simp
    also have "\<dots> = splitSpaces s @ splitSpaces b"
      by (simp add: splitSpaces_some [OF Cons])
    finally show ?thesis .
  qed
qed

lemma splitSpaces_class: "isClass w \<Longrightarrow> splitSpaces w = [w]"
proof -
  assume w: "isClass w"
  then obtain x xs where c: "w = x # xs" by (cases w) (simp_all add: isClass_def)
  have ns: "\<forall>y\<in>set w. \<not> isSpace y" using w by (simp add: isClass_def list_all_iff)
  then have d: "dropWhile isSpace w = x # xs" using c by simp
  have t: "takeWhile (\<lambda>y. \<not> isSpace y) (x # xs) = w" using ns c by simp
  have e: "dropWhile (\<lambda>y. \<not> isSpace y) (x # xs) = []" using ns c by simp
  show ?thesis
    by (simp only: splitSpaces_some [OF d] t e) (simp add: splitSpaces_none)
qed

lemma splitSpaces_join:
  "list_all isClass ws \<Longrightarrow> splitSpaces (joinWith [32] ws) = ws"
proof (induction "[32::nat]" ws rule: joinWith.induct)
  case 1
  show ?case by (simp add: splitSpaces_none)
next
  case (2 w)
  then show ?case by (simp add: splitSpaces_class)
next
  case (3 w v ws)
  have "splitSpaces (w @ 32 # joinWith [32] (v # ws))
        = splitSpaces w @ splitSpaces (joinWith [32] (v # ws))"
    by (rule splitSpaces_append_space) (rule isSpace_space)
  then show ?case using 3 by (simp add: splitSpaces_class)
qed

lemma splitSpaces_classes: "list_all isClass (splitSpaces s)"
proof (induction s rule: splitSpaces.induct)
  case (1 s)
  show ?case
  proof (cases "dropWhile isSpace s")
    case Nil
    then show ?thesis by (simp add: splitSpaces_none)
  next
    case (Cons x xs)
    have nx: "\<not> isSpace x" using Cons by (metis hd_dropWhile list.sel(1) list.distinct(1))
    have "isClass (takeWhile (\<lambda>x. \<not> isSpace x) (x # xs))"
      using nx by (auto simp: isClass_def list_all_iff dest: set_takeWhileD)
    then show ?thesis
      using "1.IH" [OF Cons] by (simp add: splitSpaces_some [OF Cons])
  qed
qed

lemma joinWith_nonempty: "ws \<noteq> [] \<Longrightarrow> list_all isClass ws \<Longrightarrow> joinWith sep ws \<noteq> []"
  by (induction sep ws rule: joinWith.induct) (simp_all add: isClass_def)

lemma tokenList_add:
  "currentValue (add (TokenList cn) item)
   = joinWith (jstr '' '') (uniq (classNames cn @ splitSpaces item))"
proof -
  define old where "old = (case cn of None \<Rightarrow> [] | Some v \<Rightarrow> v)"
  have good: "list_all isClass (uniq (splitSpaces old))"
    using splitSpaces_classes [of old] by (simp add: list_all_iff set_uniq)
  have "splitSpaces (joinWith [32] (uniq (splitSpaces old)) @ 32 # item)
        = splitSpaces (joinWith [32] (uniq (splitSpaces old))) @ splitSpaces item"
    by (rule splitSpaces_append_space) (rule isSpace_space)
  also have "\<dots> = uniq (splitSpaces old) @ splitSpaces item"
    by (simp add: splitSpaces_join [OF good])
  finally show ?thesis
    by (simp add: add_def TokenList_def setValue_def Let_def classNames_def old_def [symmetric]
        uniq_uniq_append jstr_space)
qed

lemma fontFamilyClass_splits: "splitSpaces (fontFamilyClass slugAttr) \<noteq> []"
proof -
  have "dropWhile isSpace (fontFamilyClass slugAttr)
        = 104 # (jstr ''as-'' @ slugAttr @ jstr ''-font-family'')"
    by (simp add: fontFamilyClass_def jstr_def isSpace_def)
  from splitSpaces_some [OF this] show ?thesis by simp
qed

lemma fontFamilyClass_isClass:
  "list_all (\<lambda>c. \<not> isSpace c) slugAttr \<Longrightarrow> isClass (fontFamilyClass slugAttr)"
  by (simp add: fontFamilyClass_def isClass_def jstr_def isSpace_def)

lemma classes_after_add:
  "list_all isClass (uniq (classNames cn @ splitSpaces item))"
  using splitSpaces_classes [of item]
    splitSpaces_classes [of "case cn of None \<Rightarrow> [] | Some v \<Rightarrow> v"]
  by (auto simp: list_all_iff set_uniq classNames_def)

lemma newClassName_nonempty:
  "joinWith (jstr '' '') (uniq (classNames cn @ splitSpaces (fontFamilyClass slugAttr))) \<noteq> []"
proof (rule joinWith_nonempty)
  have "set (uniq (classNames cn @ splitSpaces (fontFamilyClass slugAttr))) \<noteq> {}"
    using fontFamilyClass_splits [of slugAttr] by (simp add: set_uniq)
  then show "uniq (classNames cn @ splitSpaces (fontFamilyClass slugAttr)) \<noteq> []"
    by auto
  show "list_all isClass (uniq (classNames cn @ splitSpaces (fontFamilyClass slugAttr)))"
    by (rule classes_after_add)
qed

lemma addSaveProps_className:
  assumes "hasBlockSupport (Some blockType) FONT_FAMILY_SUPPORT_KEY"
    and "\<not> hasBlockSupport (Some blockType) SKIP_TYPOGRAPHY_SERIALIZATION"
    and "fontFamily a = Some slugAttr" and "slugAttr \<noteq> []"
  shows "addSaveProps props blockType (Some a) =
         props\<lparr>className := Some (joinWith (jstr '' '') (uniq (classNames (className props)
                                     @ splitSpaces (fontFamilyClass slugAttr))))\<rparr>"
proof -
  have "currentValue (add (TokenList (className props))
          (jstr ''has-'' @ slugAttr @ jstr ''-font-family''))
        = joinWith (jstr '' '') (uniq (classNames (className props)
            @ splitSpaces (fontFamilyClass slugAttr)))"
    using tokenList_add [of "className props" "fontFamilyClass slugAttr"]
    by (simp add: fontFamilyClass_def)
  then show ?thesis
    using assms newClassName_nonempty [of "className props" slugAttr]
    by (simp add: addSaveProps_def Let_def)
qed

subsection \<open>Blocks without the support\<close>

lemma hasBlockSupport_undeclared:
  "supports blockType feature = None \<Longrightarrow> \<not> hasBlockSupport (Some blockType) feature"
  by (simp add: hasBlockSupport_def)

text \<open>
  Claim C7. For a block type that does not declare the font-family support key, the
  three callbacks return what they were given: \<open>addAttributes\<close> the settings,
  \<open>addSaveProps\<close> the save props, and \<open>withFontFamilyInlineStyles\<close> (for a block of that
  type) the props it renders the block with.
\<close>

theorem fontFamily_noop_without_support:
  assumes "supports blockType FONT_FAMILY_SUPPORT_KEY = None"
  shows "addAttributes blockType = Inr blockType
         \<and> addSaveProps props blockType a = props
         \<and> (registry (name bprops) = Some blockType \<longrightarrow>
              withFontFamilyInlineStyles registry fontFamilies bprops = bprops)"
  using hasBlockSupport_undeclared [OF assms]
  by (simp add: addAttributes_def addSaveProps_def withFontFamilyInlineStyles_def Let_def)

theorem fontFamily_noop_without_support_witness:
  "supports plainBlock FONT_FAMILY_SUPPORT_KEY = None
   \<and> addAttributes plainBlock = Inr plainBlock
   \<and> addSaveProps \<lparr> className = Some (jstr ''wp-block''), otherProps = [] \<rparr> plainBlock
        (Some arialAttributes) = \<lparr> className = Some (jstr ''wp-block''), otherProps = [] \<rparr>
   \<and> withFontFamilyInlineStyles [''core/paragraph'' \<mapsto> plainBlock] fontFamiliesSetting arialBlock
       = arialBlock"
proof -
  have h: "supports plainBlock FONT_FAMILY_SUPPORT_KEY = None"
    by (simp add: plainBlock_def)
  from fontFamily_noop_without_support [OF h, of "\<lparr> className = Some (jstr ''wp-block''), otherProps = [] \<rparr>"
      "Some arialAttributes" "[''core/paragraph'' \<mapsto> plainBlock]" arialBlock fontFamiliesSetting] h
  show ?thesis by (simp add: arialBlock_def)
qed

subsection \<open>The class added on save\<close>

text \<open>
  Claim C8, amended. For a block type with font-family support and a non-empty
  \<open>fontFamily\<close> attribute, \<open>addSaveProps\<close> returns the props unchanged when the block
  type declares the skip-typography-serialization support; otherwise it returns them with
  \<open>className\<close> set to the value of the class list after adding the string
  \<open>has-<slug>-font-family\<close>: the classes of the old \<open>className\<close>, each once, followed by
  those pieces of the added string (split at white space) that are not among them,
  joined by single spaces. When the slug has no white space the added string is one
  class, and the new class list is the old one, each class once, followed by that class,
  or the old one alone when the class is already in it.
\<close>

theorem addSaveProps_appends_class:
  assumes "hasBlockSupport (Some blockType) FONT_FAMILY_SUPPORT_KEY"
    and "fontFamily a = Some slugAttr" and "slugAttr \<noteq> []"
  shows "(hasBlockSupport (Some blockType) SKIP_TYPOGRAPHY_SERIALIZATION \<longrightarrow>
            addSaveProps props blockType (Some a) = props)
         \<and> (\<not> hasBlockSupport (Some blockType) SKIP_TYPOGRAPHY_SERIALIZATION \<longrightarrow>
              addSaveProps props blockType (Some a) =
                props\<lparr>className := Some (joinWith (jstr '' '') (uniq (classNames (className props)
                                            @ splitSpaces (fontFamilyClass slugAttr))))\<rparr>
              \<and> (list_all (\<lambda>c. \<not> isSpace c) slugAttr \<longrightarrow>
                   classNames (className (addSaveProps props blockType (Some a))) =
                     (if fontFamilyClass slugAttr \<in> set (classNames (className props))
                      then uniq (classNames (className props))
                      else uniq (classNames (className props)) @ [fontFamilyClass slugAttr])))"
proof (intro conjI impI)
  assume "hasBlockSupport (Some blockType) SKIP_TYPOGRAPHY_SERIALIZATION"
  then show "addSaveProps props blockType (Some a) = props"
    by (simp add: addSaveProps_def)
next
  assume ns: "\<not> hasBlockSupport (Some blockType) SKIP_TYPOGRAPHY_SERIALIZATION"
  show eq: "addSaveProps props blockType (Some a) =
      props\<lparr>className := Some (joinWith (jstr '' '') (uniq (classNames (className props)
                                  @ splitSpaces (fontFamilyClass slugAttr))))\<rparr>"
    by (rule addSaveProps_className [OF assms(1) ns assms(2) assms(3)])
  assume "list_all (\<lambda>c. \<not> isSpace c) slugAttr"
  then have one: "splitSpaces (fontFamilyClass slugAttr) = [fontFamilyClass slugAttr]"
    by (simp add: splitSpaces_class fontFamilyClass_isClass)
  have "classNames (className (addSaveProps props blockType (Some a))) =
        splitSpaces (joinWith [32] (uniq (classNames (className props) @ [fontFamilyClass slugAttr])))"
    by (simp add: eq one classNames_def jstr_space)
  also have "\<dots> = uniq (classNames (className props) @ [fontFamilyClass slugAttr])"
    using classes_after_add [of "className props" "fontFamilyClass slugAttr"]
    by (simp add: splitSpaces_join one)
  finally show "classNames (className (addSaveProps props blockType (Some a))) =
      (if fontFamilyClass slugAttr \<in> set (classNames (className props))
       then uniq (classNames (className props))
       else uniq (classNames (className props)) @ [fontFamilyClass slugAttr])"
    by (simp add: uniq_snoc)
qed

lemma fontBlock_supports:
  "hasBlockSupport (Some fontBlock) FONT_FAMILY_SUPPORT_KEY"
  "\<not> hasBlockSupport (Some fontBlock) SKIP_TYPOGRAPHY_SERIALIZATION"
  by (simp_all add: hasBlockSupport_def fontBlock_def FONT_FAMILY_SUPPORT_KEY_def
      SKIP_TYPOGRAPHY_SERIALIZATION_def)

lemma classNames_example:
  "classNames (Some (jstr ''wp-block  big wp-block'')) = [jstr ''wp-block'', jstr ''big'', jstr ''wp-block'']"
  by (simp add: classNames_def jstr_def splitSpaces.simps isSpace_def)

theorem addSaveProps_appends_class_witness:
  "hasBlockSupport (Some fontBlock) FONT_FAMILY_SUPPORT_KEY
   \<and> \<not> hasBlockSupport (Some fontBlock) SKIP_TYPOGRAPHY_SERIALIZATION
   \<and> fontFamily arialAttributes = Some (jstr ''arial'') \<and> jstr ''arial'' \<noteq> []
   \<and> list_all (\<lambda>c. \<not> isSpace c) (jstr ''arial'')
   \<and> addSaveProps \<lparr> className = Some (jstr ''wp-block  big wp-block''), otherProps = [] \<rparr>
        fontBlock (Some arialAttributes)
       = \<lparr> className = Some (jstr ''wp-block big has-arial-font-family''), otherProps = [] \<rparr>"
proof -
  have h2: "fontFamily arialAttributes = Some (jstr ''arial'')"
    by (simp add: arialAttributes_def)
  have h3: "jstr ''arial'' \<noteq> []" by (simp add: jstr_def)
  have h5: "list_all (\<lambda>c. \<not> isSpace c) (jstr ''arial'')"
    by (simp add: jstr_def isSpace_def)
  have cls: "splitSpaces (fontFamilyClass (jstr ''arial'')) = [jstr ''has-arial-font-family'']"
    using splitSpaces_class [OF fontFamilyClass_isClass [OF h5]]
    by (simp add: fontFamilyClass_def jstr_def)
  from addSaveProps_appends_class [OF fontBlock_supports(1) h2 h3,
      of "\<lparr> className = Some (jstr ''wp-block  big wp-block''), otherProps = [] \<rparr>"]
    fontBlock_supports h2 h3 h5
  show ?thesis
    by (simp add: classNames_example cls uniq_def) (simp add: jstr_def)
qed

text \<open>
  The claim as stated fails on a slug with white space: for the slug \<open>my font\<close> and the
  class name \<open>font-font-family x\<close> the class list splits the added string
  \<open>has-my font-font-family\<close> into two pieces and drops the second, which is there
  already, so the new class name is \<open>font-font-family x has-my\<close> and the class is not in
  it. It also fails when the class is already there: for the slug \<open>arial\<close> and the class
  name \<open>has-arial-font-family big\<close> nothing is appended.
\<close>

theorem addSaveProps_appends_class_counterexample:
  "hasBlockSupport (Some fontBlock) FONT_FAMILY_SUPPORT_KEY
   \<and> \<not> hasBlockSupport (Some fontBlock) SKIP_TYPOGRAPHY_SERIALIZATION
   \<and> addSaveProps \<lparr> className = Some (jstr ''font-font-family x''), otherProps = [] \<rparr> fontBlock
        (Some \<lparr> fontFamily = Some (jstr ''my font''), style = JUndefined \<rparr>)
       = \<lparr> className = Some (jstr ''font-font-family x has-my''), otherProps = [] \<rparr>
   \<and> fontFamilyClass (jstr ''my font'') = jstr ''has-my font-font-family''
   \<and> classNames (Some (jstr ''font-font-family x has-my''))
       = [jstr ''font-font-family'', jstr ''x'', jstr ''has-my'']
   \<and> fontFamilyClass (jstr ''my font'')
       \<notin> set (classNames (Some (jstr ''font-font-family x has-my'')))
   \<and> addSaveProps \<lparr> className = Some (jstr ''has-arial-font-family big''), otherProps = [] \<rparr>
        fontBlock (Some arialAttributes)
       = \<lparr> className = Some (jstr ''has-arial-font-family big''), otherProps = [] \<rparr>"
  by (simp add: fontBlock_supports addSaveProps_def TokenList_def add_def setValue_def
      classNames_def fontFamilyClass_def arialAttributes_def uniq_def splitSpaces.simps
      isSpace_def jstr_def Let_def)

subsection \<open>The inline style in the editor\<close>

text \<open>
  Claim C9, amended. For a block whose type supports font families and does not skip the
  typography serialization, with a non-empty \<open>fontFamily\<close> attribute: when the attributes
  carry an explicit inline font family (\<open>style.typography.fontFamily\<close> is truthy) the
  props are passed through unchanged; otherwise the block is rendered with a wrapper
  style that keeps every key \<open>wrapperProps.style\<close> already had, with its value, and
  whose \<open>fontFamily\<close> is the one \<open>wrapperProps.style\<close> already had, if it had one, and
  else the \<open>fontFamily\<close> value of the first settings entry whose slug is the attribute
  (\<open>undefined\<close> when no entry has that slug). Nothing else in the props changes.
\<close>

theorem withFontFamilyInlineStyles_merges_style:
  assumes "hasBlockSupport (registry (name props)) FONT_FAMILY_SUPPORT_KEY"
    and "\<not> hasBlockSupport (registry (name props)) SKIP_TYPOGRAPHY_SERIALIZATION"
    and "fontFamily (attrs props) = Some slugAttr" and "slugAttr \<noteq> []"
  shows "(isTruthy (optProp (optProp (style (attrs props)) ''typography'') ''fontFamily'') \<longrightarrow>
            withFontFamilyInlineStyles registry fontFamilies props = props)
         \<and> (\<not> isTruthy (optProp (optProp (style (attrs props)) ''typography'') ''fontFamily'') \<longrightarrow>
              styleOf (withFontFamilyInlineStyles registry fontFamilies props) ''fontFamily'' =
                Some (case styleOf props ''fontFamily'' of
                        Some v \<Rightarrow> v
                      | None \<Rightarrow> (case find_js fontFamilies (\<lambda>p. slug p = slugAttr) of
                                  None \<Rightarrow> JUndefined
                                | Some p \<Rightarrow> presetFontFamily p))
              \<and> (\<forall>k v. styleOf props k = Some v \<longrightarrow>
                     styleOf (withFontFamilyInlineStyles registry fontFamilies props) k = Some v)
              \<and> (\<forall>k. k \<noteq> ''fontFamily'' \<longrightarrow>
                     styleOf (withFontFamilyInlineStyles registry fontFamilies props) k
                     = styleOf props k)
              \<and> wrapperRestOf (withFontFamilyInlineStyles registry fontFamilies props)
                  = wrapperRestOf props
              \<and> name (withFontFamilyInlineStyles registry fontFamilies props) = name props
              \<and> attrs (withFontFamilyInlineStyles registry fontFamilies props) = attrs props
              \<and> otherBlockProps (withFontFamilyInlineStyles registry fontFamilies props)
                  = otherBlockProps props)"
proof (intro conjI impI)
  assume "isTruthy (optProp (optProp (style (attrs props)) ''typography'') ''fontFamily'')"
  then show "withFontFamilyInlineStyles registry fontFamilies props = props"
    by (simp add: withFontFamilyInlineStyles_def Let_def)
next
  assume n: "\<not> isTruthy (optProp (optProp (style (attrs props)) ''typography'') ''fontFamily'')"
  define fontFamilyValue where "fontFamilyValue =
    (case find_js fontFamilies (\<lambda>p. slug p = slugAttr) of
       None \<Rightarrow> JUndefined | Some p \<Rightarrow> presetFontFamily p)"
  have st: "styleOf (withFontFamilyInlineStyles registry fontFamilies props)
            = [''fontFamily'' \<mapsto> fontFamilyValue] ++ styleOf props"
    using assms n
    by (simp add: withFontFamilyInlineStyles_def Let_def styleOf_def spread_def fontFamilyValue_def
        split: option.splits)
  show "styleOf (withFontFamilyInlineStyles registry fontFamilies props) ''fontFamily'' =
      Some (case styleOf props ''fontFamily'' of
              Some v \<Rightarrow> v
            | None \<Rightarrow> (case find_js fontFamilies (\<lambda>p. slug p = slugAttr) of
                        None \<Rightarrow> JUndefined
                      | Some p \<Rightarrow> presetFontFamily p))"
    by (simp add: st map_add_def fontFamilyValue_def split: option.splits)
  show "\<forall>k v. styleOf props k = Some v \<longrightarrow>
      styleOf (withFontFamilyInlineStyles registry fontFamilies props) k = Some v"
    by (simp add: st map_add_def)
  show "\<forall>k. k \<noteq> ''fontFamily'' \<longrightarrow>
      styleOf (withFontFamilyInlineStyles registry fontFamilies props) k = styleOf props k"
    by (simp add: st map_add_def split: option.splits)
  show "wrapperRestOf (withFontFamilyInlineStyles registry fontFamilies props) = wrapperRestOf props"
    using assms n
    by (simp add: withFontFamilyInlineStyles_def Let_def wrapperRestOf_def split: option.splits)
  show "name (withFontFamilyInlineStyles registry fontFamilies props) = name props"
    and "attrs (withFontFamilyInlineStyles registry fontFamilies props) = attrs props"
    and "otherBlockProps (withFontFamilyInlineStyles registry fontFamilies props)
         = otherBlockProps props"
    by (simp_all add: withFontFamilyInlineStyles_def Let_def)
qed

lemma fontRegistry_supports:
  "hasBlockSupport (fontRegistry ''core/paragraph'') FONT_FAMILY_SUPPORT_KEY"
  "\<not> hasBlockSupport (fontRegistry ''core/paragraph'') SKIP_TYPOGRAPHY_SERIALIZATION"
  by (simp_all add: fontRegistry_def hasBlockSupport_def fontBlock_def FONT_FAMILY_SUPPORT_KEY_def
      SKIP_TYPOGRAPHY_SERIALIZATION_def)

lemma skippingRegistry_supports:
  "hasBlockSupport (skippingRegistry ''core/paragraph'') FONT_FAMILY_SUPPORT_KEY"
  "hasBlockSupport (skippingRegistry ''core/paragraph'') SKIP_TYPOGRAPHY_SERIALIZATION"
  by (simp_all add: skippingRegistry_def hasBlockSupport_def skippingBlock_def
      FONT_FAMILY_SUPPORT_KEY_def SKIP_TYPOGRAPHY_SERIALIZATION_def)

theorem withFontFamilyInlineStyles_merges_style_witness:
  "hasBlockSupport (fontRegistry (name arialBlock)) FONT_FAMILY_SUPPORT_KEY
   \<and> \<not> hasBlockSupport (fontRegistry (name arialBlock)) SKIP_TYPOGRAPHY_SERIALIZATION
   \<and> fontFamily (attrs arialBlock) = Some (jstr ''arial'') \<and> jstr ''arial'' \<noteq> []
   \<and> \<not> isTruthy (optProp (optProp (style (attrs arialBlock)) ''typography'') ''fontFamily'')
   \<and> styleOf (withFontFamilyInlineStyles fontRegistry fontFamiliesSetting arialBlock) ''fontFamily''
       = Some (JStr ''Arial, sans-serif'')"
proof -
  have h1: "hasBlockSupport (fontRegistry (name arialBlock)) FONT_FAMILY_SUPPORT_KEY"
    and h2: "\<not> hasBlockSupport (fontRegistry (name arialBlock)) SKIP_TYPOGRAPHY_SERIALIZATION"
    by (simp_all add: arialBlock_def fontRegistry_supports)
  have h3: "fontFamily (attrs arialBlock) = Some (jstr ''arial'')"
    by (simp add: arialBlock_def arialAttributes_def)
  have h4: "jstr ''arial'' \<noteq> []" by (simp add: jstr_def)
  have h5: "\<not> isTruthy (optProp (optProp (style (attrs arialBlock)) ''typography'') ''fontFamily'')"
    by (simp add: arialBlock_def arialAttributes_def)
  from withFontFamilyInlineStyles_merges_style [where registry = fontRegistry and props = arialBlock
      and fontFamilies = fontFamiliesSetting and slugAttr = "jstr ''arial''", OF h1 h2 h3 h4] h1 h2 h3 h5
  show ?thesis
    by (simp add: styleOf_def arialBlock_def find_js_def fontFamiliesSetting_def jstr_def)
qed

text \<open>
  The claim as stated fails on two inputs. A block type that supports font families and
  skips the typography serialization: the block with the slug \<open>arial\<close> and no inline
  style is rendered with its props unchanged, so no \<open>fontFamily\<close> is set. A block whose
  \<open>wrapperProps.style\<close> already has a \<open>fontFamily\<close>: that value stays, and the value of
  the settings entry is not set.
\<close>

theorem withFontFamilyInlineStyles_counterexample:
  "hasBlockSupport (skippingRegistry (name arialBlock)) FONT_FAMILY_SUPPORT_KEY
   \<and> fontFamily (attrs arialBlock) = Some (jstr ''arial'')
   \<and> optProp (optProp (style (attrs arialBlock)) ''typography'') ''fontFamily'' = JUndefined
   \<and> withFontFamilyInlineStyles skippingRegistry fontFamiliesSetting arialBlock = arialBlock
   \<and> styleOf (withFontFamilyInlineStyles skippingRegistry fontFamiliesSetting arialBlock)
       ''fontFamily'' = None
   \<and> hasBlockSupport (fontRegistry (name serifBlock)) FONT_FAMILY_SUPPORT_KEY
   \<and> fontFamily (attrs serifBlock) = Some (jstr ''arial'')
   \<and> optProp (optProp (style (attrs serifBlock)) ''typography'') ''fontFamily'' = JUndefined
   \<and> find_js fontFamiliesSetting (\<lambda>p. slug p = jstr ''arial'')
       = Some (Preset (jstr ''arial'') (JStr ''Arial, sans-serif''))
   \<and> styleOf (withFontFamilyInlineStyles fontRegistry fontFamiliesSetting serifBlock)
       ''fontFamily'' = Some (JStr ''serif'')"
  by (simp add: withFontFamilyInlineStyles_def Let_def styleOf_def spread_def find_js_def
      fontFamiliesSetting_def arialBlock_def serifBlock_def arialAttributes_def
      fontRegistry_supports skippingRegistry_supports jstr_def)

section \<open>Properties of the audio URL parser\<close>

lemma delimiters:
  "SLASH = 47" "QUESTION = 63" "HASH = 35" "COLON = 58" "DOT = 46" "jstr ''://'' = [58, 47, 47]"
  by (simp_all add: SLASH_def QUESTION_def HASH_def COLON_def DOT_def jstr_def)






text \<open>
  The test's URLs (test/audio-url-parser.test.js), with what the test expects of each: a
  title, and an extension for those of the first group only.
\<close>

lemma supportedAudioUrlsWithExtensions:
  "title (parseAudioUrl
      (jstr ''https://www.mp3.com/file.mp3?key1=value1&key2=value2#anchorforsomereason'')) \<noteq> []
   \<and> extension (parseAudioUrl
      (jstr ''https://www.mp3.com/file.mp3?key1=value1&key2=value2#anchorforsomereason'')) \<noteq> []"
  "title (parseAudioUrl (jstr ''https://www.mp3.com/file.mp3?key1=value1&key2=value2'')) \<noteq> []
   \<and> extension (parseAudioUrl (jstr ''https://www.mp3.com/file.mp3?key1=value1&key2=value2'')) \<noteq> []"
  "title (parseAudioUrl (jstr ''https://www.mp3.com/file.mp3'')) \<noteq> []
   \<and> extension (parseAudioUrl (jstr ''https://www.mp3.com/file.mp3'')) \<noteq> []"
  by (simp_all add: parseAudioUrl_def pathOf_def finalSegment_def stripQueryAndFragment_def
      splitLastDot_def delimiters jstr_def Let_def)

lemma supportedAudioUrlsWithoutExtensions:
  "title (parseAudioUrl
      (jstr ''https://www.mp3.com/file?key1=value1&key2=value2#anchorforsomereason'')) \<noteq> []
   \<and> extension (parseAudioUrl
      (jstr ''https://www.mp3.com/file?key1=value1&key2=value2#anchorforsomereason'')) = []"
  "title (parseAudioUrl (jstr ''https://www.mp3.com/file?key1=value1&key2=value2'')) \<noteq> []
   \<and> extension (parseAudioUrl (jstr ''https://www.mp3.com/file?key1=value1&key2=value2'')) = []"
  "title (parseAudioUrl (jstr ''https://www.mp3.com/file'')) \<noteq> []
   \<and> extension (parseAudioUrl (jstr ''https://www.mp3.com/file'')) = []"
  "title (parseAudioUrl (jstr ''https://www.mp3.com/folder/file'')) \<noteq> []
   \<and> extension (parseAudioUrl (jstr ''https://www.mp3.com/folder/file'')) = []"
  by (simp_all add: parseAudioUrl_def pathOf_def finalSegment_def stripQueryAndFragment_def
      splitLastDot_def delimiters jstr_def Let_def)



end
